theory Spec2Isabelle
  imports Main "HOL-Library.Word" "HOL-Library.List_Lexorder"
begin

section \<open>ManagedDocumentResult: a document held by pointer\<close>

text \<open>
  The class \<^verbatim>\<open>ManagedDocumentResult\<close> (arangod/VocBase/ManagedDocumentResult.h) holds a
  velocypack document in one of three ways: \<^emph>\<open>unmanaged\<close> (a borrowed pointer),
  \<^emph>\<open>managed\<close> (a buffer the object owns and frees) or \<^emph>\<open>string-backed\<close> (the bytes live in
  the member \<^verbatim>\<open>_string\<close>). The fields are those of the class; the member \<^verbatim>\<open>_x\<close> is the
  record field \<open>mdr_x\<close>. \<^verbatim>\<open>LocalDocumentId\<close> is declared in a header that is not at hand and is
  the type parameter \<open>'id\<close>.

  A pointer is null, the address of a buffer in memory, or the address of the data of the
  object's own \<^verbatim>\<open>_string\<close>. The heap maps the address of each live buffer to its bytes.
\<close>

type_synonym bytes = "8 word list"
type_synonym addr = nat
type_synonym heap = "addr \<rightharpoonup> bytes"

datatype vpack_ptr = Nullptr | HeapPtr addr | StringData

record 'id ManagedDocumentResult =
  mdr_length :: "64 word"
  mdr_localDocumentId :: 'id
  mdr_vpack :: vpack_ptr
  mdr_string :: bytes
  mdr_managed :: bool
  mdr_useString :: bool

text \<open>\<^verbatim>\<open>inline bool empty() const { return _vpack == nullptr; }\<close>\<close>

definition empty :: "'id ManagedDocumentResult \<Rightarrow> bool" where
  "empty x \<longleftrightarrow> mdr_vpack x = Nullptr"

text \<open>\<^verbatim>\<open>inline bool canUseInExternal() const { return (!_managed && !_useString); }\<close>\<close>

definition canUseInExternal :: "'id ManagedDocumentResult \<Rightarrow> bool" where
  "canUseInExternal x \<longleftrightarrow> \<not> mdr_managed x \<and> \<not> mdr_useString x"

text \<open>
  Objects have identity: \<^verbatim>\<open>*this\<close> and \<^verbatim>\<open>other\<close> are references, and they may name the same
  object. The program state is the heap together with the objects, by object id.
\<close>

type_synonym oid = nat
type_synonym 'id objects = "oid \<Rightarrow> 'id ManagedDocumentResult"
type_synonym 'id state = "heap \<times> 'id objects"

text \<open>
  The header declares \<^verbatim>\<open>reset\<close>, \<^verbatim>\<open>setUnmanaged\<close> and \<^verbatim>\<open>setManaged(std::string&&, ...)\<close>;
  their bodies are in ManagedDocumentResult.cpp, which is not among the sources. The
  functions defined in the header call them, so they are parameters of the model, each a
  function on the whole state:
  \<^item> \<open>reset i\<close> is \<^verbatim>\<open>reset()\<close> called on object \<open>i\<close>;
  \<^item> \<open>setUnmanaged i p src\<close> is \<^verbatim>\<open>setUnmanaged(p, src._localDocumentId)\<close> called on object \<open>i\<close>:
    the pointer is passed by value, the id by reference;
  \<^item> \<open>setManaged_string i src\<close> is
    \<^verbatim>\<open>setManaged(std::move(src._string), src._localDocumentId)\<close> called on object \<open>i\<close>: both
    arguments are references to members of \<open>src\<close>.
\<close>

record 'id helpers =
  reset :: "oid \<Rightarrow> 'id state \<Rightarrow> 'id state"
  setUnmanaged :: "oid \<Rightarrow> vpack_ptr \<Rightarrow> oid \<Rightarrow> 'id state \<Rightarrow> 'id state"
  setManaged_string :: "oid \<Rightarrow> oid \<Rightarrow> 'id state \<Rightarrow> 'id state"

text \<open>An assignment to members of object \<open>i\<close>.\<close>

definition assign ::
  "oid \<Rightarrow> ('id ManagedDocumentResult \<Rightarrow> 'id ManagedDocumentResult) \<Rightarrow> 'id state \<Rightarrow> 'id state" where
  "assign i f s = (fst s, (snd s)(i := f (snd s i)))"

text \<open>
  The move assignment \<^verbatim>\<open>operator=(ManagedDocumentResult&& other)\<close>, statement by statement
  as in the header. The two branch conditions are read on entry; every later read of a
  member of \<^verbatim>\<open>other\<close> sees the state the statements before it left, so the model also says
  what happens when \<^verbatim>\<open>this\<close> and \<^verbatim>\<open>other\<close> are the same object.
\<close>

definition move_assign :: "'id helpers \<Rightarrow> oid \<Rightarrow> oid \<Rightarrow> 'id state \<Rightarrow> 'id state" where
  "move_assign hp this other s =
     (if mdr_useString (snd s other) then
        (let s1 = setManaged_string hp this other s;
             s2 = assign other (\<lambda>x. x\<lparr>mdr_managed := False\<rparr>) s1
         in reset hp other s2)
      else if mdr_managed (snd s other) then
        (let s1 = reset hp this s;
             s2 = assign this (\<lambda>x. x\<lparr>mdr_vpack := mdr_vpack (snd s1 other)\<rparr>) s1;
             s3 = assign this (\<lambda>x. x\<lparr>mdr_length := mdr_length (snd s2 other)\<rparr>) s2;
             s4 = assign this (\<lambda>x. x\<lparr>mdr_localDocumentId := mdr_localDocumentId (snd s3 other)\<rparr>) s3;
             s5 = assign this (\<lambda>x. x\<lparr>mdr_managed := True\<rparr>) s4;
             s6 = assign other (\<lambda>x. x\<lparr>mdr_managed := False\<rparr>) s5
         in reset hp other s6)
      else setUnmanaged hp this (mdr_vpack (snd s other)) other s)"

text \<open>\<^verbatim>\<open>std::string* prepareStringUsage() { reset(); _useString = true; return &_string; }\<close>\<close>

definition prepareStringUsage :: "'id helpers \<Rightarrow> oid \<Rightarrow> 'id state \<Rightarrow> 'id state" where
  "prepareStringUsage hp this s = assign this (\<lambda>x. x\<lparr>mdr_useString := True\<rparr>) (reset hp this s)"

subsection \<open>What the absent member functions are taken to do\<close>

text \<open>
  The heap after an object gave up the buffer it owns: a managed object's buffer is freed,
  any other pointer is left alone. This is why the header clears \<^verbatim>\<open>other._managed\<close> before
  it calls \<^verbatim>\<open>other.reset()\<close>.
\<close>

definition freed :: "heap \<Rightarrow> 'id ManagedDocumentResult \<Rightarrow> heap" where
  "freed h x = (if mdr_managed x then (case mdr_vpack x of HeapPtr p \<Rightarrow> h(p := None) | _ \<Rightarrow> h) else h)"

text \<open>
  \<^verbatim>\<open>reset\<close> frees the owned buffer and leaves its object as the default constructor does:
  null pointer, length zero, neither managed nor string-backed. It touches no other object.
\<close>

definition reset_contract :: "'id helpers \<Rightarrow> bool" where
  "reset_contract hp \<longleftrightarrow>
     (\<forall>i h os. case reset hp i (h, os) of (h', os') \<Rightarrow>
        h' = freed h (os i) \<and> (\<forall>j. j \<noteq> i \<longrightarrow> os' j = os j)
        \<and> mdr_vpack (os' i) = Nullptr \<and> mdr_length (os' i) = 0
        \<and> \<not> mdr_managed (os' i) \<and> \<not> mdr_useString (os' i))"

text \<open>
  \<^verbatim>\<open>setUnmanaged\<close> ("add unmanaged vpack") gives up the buffer its object owns, stores the
  pointer, and stores the id when the id is another object's. It touches no other object.
\<close>

definition setUnmanaged_contract :: "'id helpers \<Rightarrow> bool" where
  "setUnmanaged_contract hp \<longleftrightarrow>
     (\<forall>i p src h os. case setUnmanaged hp i p src (h, os) of (h', os') \<Rightarrow>
        h' = freed h (os i) \<and> (\<forall>j. j \<noteq> i \<longrightarrow> os' j = os j)
        \<and> mdr_vpack (os' i) = p
        \<and> (src \<noteq> i \<longrightarrow> mdr_localDocumentId (os' i) = mdr_localDocumentId (os src))
        \<and> \<not> mdr_managed (os' i) \<and> \<not> mdr_useString (os' i))"

text \<open>
  \<^verbatim>\<open>setManaged(std::string&&, ...)\<close> points \<^verbatim>\<open>_vpack\<close> at the data of its object's string.
  When the string and the id are another object's, it takes the string over and stores
  the id; of that other object it changes at most the moved-from string.
\<close>

definition setManaged_string_contract :: "'id helpers \<Rightarrow> bool" where
  "setManaged_string_contract hp \<longleftrightarrow>
     (\<forall>i src h os. case setManaged_string hp i src (h, os) of (h', os') \<Rightarrow>
        (\<forall>j. j \<noteq> i \<and> j \<noteq> src \<longrightarrow> os' j = os j)
        \<and> (src \<noteq> i \<longrightarrow>
              (os' src)\<lparr>mdr_string := mdr_string (os src)\<rparr> = os src
              \<and> mdr_string (os' i) = mdr_string (os src)
              \<and> mdr_localDocumentId (os' i) = mdr_localDocumentId (os src))
        \<and> mdr_vpack (os' i) = StringData \<and> mdr_length (os' i) = 0
        \<and> \<not> mdr_managed (os' i) \<and> mdr_useString (os' i))"

definition helpers_ok :: "'id helpers \<Rightarrow> bool" where
  "helpers_ok hp \<longleftrightarrow> reset_contract hp \<and> setUnmanaged_contract hp \<and> setManaged_string_contract hp"

text \<open>The bytes \<^verbatim>\<open>vpack()\<close> points at; nothing when the pointer is null or the buffer is gone.\<close>

definition vpack_bytes :: "heap \<Rightarrow> 'id ManagedDocumentResult \<Rightarrow> bytes option" where
  "vpack_bytes h x = (case mdr_vpack x of Nullptr \<Rightarrow> None | HeapPtr p \<Rightarrow> h p | StringData \<Rightarrow> Some (mdr_string x))"

definition is_heap_ptr :: "vpack_ptr \<Rightarrow> bool" where
  "is_heap_ptr q = (case q of HeapPtr p \<Rightarrow> True | _ \<Rightarrow> False)"

text \<open>
  The three ways of holding a document exclude each other: a string-backed object is not
  managed, has length zero and points nowhere or at its own string; a managed object points
  at a buffer; only a string-backed object points at its own string.
\<close>

definition consistent :: "'id ManagedDocumentResult \<Rightarrow> bool" where
  "consistent x \<longleftrightarrow>
     (if mdr_useString x then \<not> mdr_managed x \<and> mdr_length x = 0 \<and> \<not> is_heap_ptr (mdr_vpack x)
      else mdr_vpack x \<noteq> StringData \<and> (if mdr_managed x then is_heap_ptr (mdr_vpack x) else True))"

text \<open>Object \<open>a\<close> owns the very buffer that object \<open>b\<close> points at.\<close>

definition owns_target :: "'id ManagedDocumentResult \<Rightarrow> 'id ManagedDocumentResult \<Rightarrow> bool" where
  "owns_target a b \<longleftrightarrow> mdr_managed a \<and> is_heap_ptr (mdr_vpack b) \<and> mdr_vpack a = mdr_vpack b"

text \<open>No two objects own the same buffer.\<close>

definition exclusive :: "'id objects \<Rightarrow> bool" where
  "exclusive os \<longleftrightarrow>
     (\<forall>i j. i \<noteq> j \<and> mdr_managed (os i) \<and> mdr_managed (os j) \<longrightarrow> mdr_vpack (os i) \<noteq> mdr_vpack (os j))"

subsection \<open>One implementation of the member functions\<close>

text \<open>
  An instance of the three member functions that meets the contracts, with a 64-bit number
  as \<^verbatim>\<open>LocalDocumentId\<close> and \<open>0\<close> as the cleared id. It shows that the contracts can be met
  and lets the move assignment run on concrete objects. The reference arguments are read
  when the function uses them, after its own \<^verbatim>\<open>reset\<close>.
\<close>

definition sample_reset :: "oid \<Rightarrow> (64 word) state \<Rightarrow> (64 word) state" where
  "sample_reset i s =
     (freed (fst s) (snd s i),
      (snd s)(i := (snd s i)
         \<lparr>mdr_length := 0, mdr_localDocumentId := 0, mdr_vpack := Nullptr,
          mdr_string := (if mdr_useString (snd s i) then [] else mdr_string (snd s i)),
          mdr_managed := False, mdr_useString := False\<rparr>))"

definition sample_setUnmanaged ::
  "oid \<Rightarrow> vpack_ptr \<Rightarrow> oid \<Rightarrow> (64 word) state \<Rightarrow> (64 word) state" where
  "sample_setUnmanaged i p src s =
     (let s1 = (if mdr_managed (snd s i) \<or> mdr_useString (snd s i) then sample_reset i s else s)
      in assign i (\<lambda>x. x\<lparr>mdr_vpack := p, mdr_localDocumentId := mdr_localDocumentId (snd s1 src)\<rparr>) s1)"

definition sample_setManaged_string :: "oid \<Rightarrow> oid \<Rightarrow> (64 word) state \<Rightarrow> (64 word) state" where
  "sample_setManaged_string i src s =
     (let s1 = sample_reset i s;
          str = mdr_string (snd s1 src);
          s2 = assign src (\<lambda>x. x\<lparr>mdr_string := []\<rparr>) s1
      in assign i (\<lambda>x. x\<lparr>mdr_string := str, mdr_vpack := StringData,
                          mdr_localDocumentId := mdr_localDocumentId (snd s2 src),
                          mdr_useString := True\<rparr>) s2)"

definition sample_helpers :: "(64 word) helpers" where
  "sample_helpers =
     \<lparr>reset = sample_reset, setUnmanaged = sample_setUnmanaged,
      setManaged_string = sample_setManaged_string\<rparr>"

text \<open>The object the default constructor builds, and three objects that hold a document.\<close>

definition default_result :: "(64 word) ManagedDocumentResult" where
  "default_result =
     \<lparr>mdr_length = 0, mdr_localDocumentId = 0, mdr_vpack = Nullptr, mdr_string = [],
      mdr_managed = False, mdr_useString = False\<rparr>"

definition managed_doc :: "(64 word) ManagedDocumentResult" where
  "managed_doc = default_result\<lparr>mdr_length := 3, mdr_localDocumentId := 7,
                   mdr_vpack := HeapPtr 1, mdr_managed := True\<rparr>"

definition string_doc :: "(64 word) ManagedDocumentResult" where
  "string_doc = default_result\<lparr>mdr_localDocumentId := 9, mdr_vpack := StringData,
                   mdr_string := [0x0D], mdr_useString := True\<rparr>"

definition unmanaged_doc :: "(64 word) ManagedDocumentResult" where
  "unmanaged_doc = default_result\<lparr>mdr_localDocumentId := 5, mdr_vpack := HeapPtr 1\<rparr>"

text \<open>A heap with one buffer, and a state whose objects 0 and 1 are given.\<close>

definition sample_heap :: heap where
  "sample_heap = [1 \<mapsto> [0x0A, 0x0B, 0x0C]]"

definition two_objects ::
  "(64 word) ManagedDocumentResult \<Rightarrow> (64 word) ManagedDocumentResult \<Rightarrow> (64 word) objects" where
  "two_objects x y = (\<lambda>i. default_result)(0 := x, 1 := y)"

section \<open>Replication test helper: comparing tick strings\<close>

text \<open>
  The replication test suite compares server ticks, which arrive as decimal strings or as
  \<^verbatim>\<open>null\<close>, with the JavaScript function \<^verbatim>\<open>compareTicks\<close>.
  A JavaScript string is a sequence of UTF-16 code units; indexing it yields a one-unit
  string, and \<^verbatim>\<open><\<close> on two one-unit strings compares the units as unsigned
  numbers. \<^verbatim>\<open>null\<close> is \<open>None\<close>; the result, a JavaScript number, is an \<open>int\<close>.
\<close>


type_synonym jsstring = "16 word list"

text \<open>The two guards \<^verbatim>\<open>if (l === null) { l = "0"; }\<close>: the unit \<open>0x30\<close> is the digit zero.\<close>

definition normalizeTick :: "jsstring option \<Rightarrow> jsstring" where
  "normalizeTick t = (case t of None \<Rightarrow> [0x30] | Some s \<Rightarrow> s)"

text \<open>
  The \<^verbatim>\<open>for\<close> loop over the index \<open>i\<close>. It is only entered with strings of equal
  length, so \<open>r ! i\<close> is read in range whenever \<open>l ! i\<close> is.
\<close>

function compareTicksLoop :: "jsstring \<Rightarrow> jsstring \<Rightarrow> nat \<Rightarrow> int" where
  "compareTicksLoop l r i =
     (if i < length l then
        (if l ! i \<noteq> r ! i then (if l ! i < r ! i then - 1 else 1)
         else compareTicksLoop l r (i + 1))
      else 0)"
  by pat_completeness auto
termination
  by (relation "measure (\<lambda>(l, r, i). length l - i)") auto

definition compareTicks :: "jsstring option \<Rightarrow> jsstring option \<Rightarrow> int" where
  "compareTicks l0 r0 =
     (let l = normalizeTick l0; r = normalizeTick r0 in
      if length l \<noteq> length r then
        (if int (length l) - int (length r) < 0 then - 1 else 1)
      else compareTicksLoop l r 0)"

text \<open>The same comparison by recursion on the two strings, used to reason about the loop.\<close>

fun cmpUnits :: "jsstring \<Rightarrow> jsstring \<Rightarrow> int" where
  "cmpUnits (x # xs) (y # ys) = (if x \<noteq> y then (if x < y then - 1 else 1) else cmpUnits xs ys)"
| "cmpUnits _ _ = 0"

section \<open>Storage engine: internal keys\<close>

text \<open>
  The storage engine is the bundled RocksDB library. Of it, the sources hold only the build
  description (CMakeLists.txt, which lists db/dbformat.cc, db/memtable.cc and so on); the
  definitions of this section follow the specification's data model instead.
\<close>

text \<open>
  Modelled from the spec: the value types of an InternalKey (db/dbformat.h is missing), in
  the order the data model lists them.
\<close>

datatype value_type = Put | Delete | Merge | SingleDelete | RangeDeleteBegin

text \<open>
  Modelled from the spec: the order of the value types, "further ties by value_type". The
  data model names no direction; the listing order is taken, and the properties below use
  only that distinct types have distinct ranks.
\<close>

fun value_type_rank :: "value_type \<Rightarrow> nat" where
  "value_type_rank Put = 0"
| "value_type_rank Delete = 1"
| "value_type_rank Merge = 2"
| "value_type_rank SingleDelete = 3"
| "value_type_rank RangeDeleteBegin = 4"

text \<open>
  Modelled from the spec: InternalKey (db/dbformat.h is missing): a user key (a byte
  sequence), a sequence number (an unsigned integer; no width is given, so \<open>nat\<close>) and a
  value type.
\<close>

record InternalKey =
  user_key :: bytes
  sequence_number :: nat
  value_type :: value_type

text \<open>
  Modelled from the spec: the InternalKey comparator (InternalKeyComparator in
  db/dbformat.cc is missing): "ascending by user_key; ties broken by descending
  sequence_number (newest first); further ties by value_type". User keys are compared as
  byte strings, lexicographically (pluggable comparators are outside the specification).
\<close>

definition internal_key_less :: "InternalKey \<Rightarrow> InternalKey \<Rightarrow> bool" where
  "internal_key_less a b \<longleftrightarrow>
     user_key a < user_key b
     \<or> (user_key a = user_key b
        \<and> (sequence_number b < sequence_number a
           \<or> (sequence_number a = sequence_number b
              \<and> value_type_rank (value_type a) < value_type_rank (value_type b))))"

text \<open>
  Modelled from the spec: an Entry is an InternalKey with its value payload (empty for a
  Delete); a sorted run is a sequence of entries in which no entry is followed by one with
  a smaller key.
\<close>

type_synonym entry = "InternalKey \<times> bytes"

definition sorted_run :: "entry list \<Rightarrow> bool" where
  "sorted_run es = sorted_wrt (\<lambda>x y. \<not> internal_key_less (fst y) (fst x)) es"

text \<open>
  Modelled from the spec: a forward scan of a run that stops at the first entry of a user
  key.
\<close>

definition first_for_key :: "bytes \<Rightarrow> entry list \<Rightarrow> entry option" where
  "first_for_key k es = find (\<lambda>e. user_key (fst e) = k) es"

definition ikey :: "bytes \<Rightarrow> nat \<Rightarrow> value_type \<Rightarrow> InternalKey" where
  "ikey k s t = \<lparr>user_key = k, sequence_number = s, value_type = t\<rparr>"

section \<open>Properties of the move assignment\<close>

text \<open>What each contract gives for one call.\<close>

lemma resetD:
  assumes "reset_contract hp" "reset hp i (h, os) = (h', os')"
  shows "h' = freed h (os i)" "\<And>j. j \<noteq> i \<Longrightarrow> os' j = os j" "mdr_vpack (os' i) = Nullptr"
    "mdr_length (os' i) = 0" "\<not> mdr_managed (os' i)" "\<not> mdr_useString (os' i)"
  using assms(1) [unfolded reset_contract_def, THEN spec [of _ i], THEN spec [of _ h],
      THEN spec [of _ os]] assms(2)
  by simp_all

lemma setUnmanagedD:
  assumes "setUnmanaged_contract hp" "setUnmanaged hp i p src (h, os) = (h', os')"
  shows "h' = freed h (os i)" "\<And>j. j \<noteq> i \<Longrightarrow> os' j = os j" "mdr_vpack (os' i) = p"
    "src \<noteq> i \<Longrightarrow> mdr_localDocumentId (os' i) = mdr_localDocumentId (os src)"
    "\<not> mdr_managed (os' i)" "\<not> mdr_useString (os' i)"
  using assms(1) [unfolded setUnmanaged_contract_def, THEN spec [of _ i], THEN spec [of _ p],
      THEN spec [of _ src], THEN spec [of _ h], THEN spec [of _ os]] assms(2)
  by simp_all

lemma setManaged_stringD:
  assumes "setManaged_string_contract hp" "setManaged_string hp i src (h, os) = (h', os')"
    and "src \<noteq> i"
  shows "\<And>j. j \<noteq> i \<Longrightarrow> j \<noteq> src \<Longrightarrow> os' j = os j"
    "(os' src)\<lparr>mdr_string := mdr_string (os src)\<rparr> = os src"
    "mdr_string (os' i) = mdr_string (os src)"
    "mdr_localDocumentId (os' i) = mdr_localDocumentId (os src)"
    "mdr_vpack (os' i) = StringData" "mdr_length (os' i) = 0"
    "\<not> mdr_managed (os' i)" "mdr_useString (os' i)"
  using assms(1) [unfolded setManaged_string_contract_def, THEN spec [of _ i],
      THEN spec [of _ src], THEN spec [of _ h], THEN spec [of _ os]] assms(2,3)
  by simp_all


text \<open>Which buffers \<open>freed\<close> leaves alone.\<close>

lemma freed_other:
  "\<not> (mdr_managed x \<and> mdr_vpack x = HeapPtr p) \<Longrightarrow> freed h x p = h p"
  by (auto simp: freed_def split: vpack_ptr.splits)

lemma freed_unmanaged: "\<not> mdr_managed x \<Longrightarrow> freed h x = h"
  by (simp add: freed_def)

lemma freed_own: "mdr_managed x \<Longrightarrow> mdr_vpack x = HeapPtr p \<Longrightarrow> freed h x p = None"
  by (simp add: freed_def)

text \<open>The three branches of the move assignment between two distinct objects, one lemma each.\<close>

lemma move_assign_string:
  assumes ok: "helpers_ok hp" and ne: "a \<noteq> b" and us: "mdr_useString (os b)"
    and res: "move_assign hp a b (h, os) = (h', os')"
  shows "mdr_useString (os' a) \<and> \<not> mdr_managed (os' a) \<and> mdr_string (os' a) = mdr_string (os b)
         \<and> mdr_vpack (os' a) = StringData \<and> mdr_length (os' a) = 0
         \<and> mdr_localDocumentId (os' a) = mdr_localDocumentId (os b)
         \<and> empty (os' b) \<and> \<not> mdr_managed (os' b) \<and> \<not> mdr_useString (os' b)"
proof -
  obtain h1 o1 where sm: "setManaged_string hp a b (h, os) = (h1, o1)"
    by (cases "setManaged_string hp a b (h, os)")
  let ?o2 = "o1(b := (o1 b)\<lparr>mdr_managed := False\<rparr>)"
  from res us sm have rs: "reset hp b (h1, ?o2) = (h', os')"
    by (simp add: move_assign_def assign_def)
  from ok have c: "reset_contract hp" "setManaged_string_contract hp"
    by (simp_all add: helpers_ok_def)
  from ne have ne': "b \<noteq> a" by simp
  have "os' a = o1 a"
    using resetD(2) [OF c(1) rs, of a] ne by simp
  then show ?thesis
    using setManaged_stringD [OF c(2) sm ne'] resetD [OF c(1) rs]
    by (simp add: empty_def)
qed

lemma move_assign_managed:
  assumes ok: "helpers_ok hp" and ne: "a \<noteq> b"
    and us: "\<not> mdr_useString (os b)" and mg: "mdr_managed (os b)"
    and res: "move_assign hp a b (h, os) = (h', os')"
  shows "mdr_managed (os' a) \<and> \<not> mdr_useString (os' a) \<and> mdr_vpack (os' a) = mdr_vpack (os b)
         \<and> mdr_length (os' a) = mdr_length (os b)
         \<and> mdr_localDocumentId (os' a) = mdr_localDocumentId (os b)
         \<and> h' = freed h (os a)
         \<and> empty (os' b) \<and> \<not> mdr_managed (os' b) \<and> \<not> mdr_useString (os' b)"
proof -
  obtain h1 o1 where ra: "reset hp a (h, os) = (h1, o1)"
    by (cases "reset hp a (h, os)")
  from ok have c: "reset_contract hp"
    by (simp add: helpers_ok_def)
  have b1: "o1 b = os b"
    using resetD(2) [OF c ra, of b] ne by simp
  let ?a6 = "(o1 a)\<lparr>mdr_vpack := mdr_vpack (os b), mdr_length := mdr_length (os b),
                mdr_localDocumentId := mdr_localDocumentId (os b), mdr_managed := True\<rparr>"
  let ?o6 = "o1(a := ?a6, b := (os b)\<lparr>mdr_managed := False\<rparr>)"
  from res us mg ra ne b1 have rb: "reset hp b (h1, ?o6) = (h', os')"
    by (simp add: move_assign_def assign_def Let_def fun_upd_twist)
  have "os' a = ?a6"
    using resetD(2) [OF c rb, of a] ne by simp
  moreover have "h' = h1"
    using resetD(1) [OF c rb] by (simp add: freed_def)
  ultimately show ?thesis
    using resetD [OF c ra] resetD [OF c rb]
    by (simp add: empty_def)
qed

lemma move_assign_unmanaged:
  assumes ok: "helpers_ok hp" and ne: "a \<noteq> b"
    and us: "\<not> mdr_useString (os b)" and mg: "\<not> mdr_managed (os b)"
    and res: "move_assign hp a b (h, os) = (h', os')"
  shows "os' b = os b \<and> mdr_vpack (os' a) = mdr_vpack (os b)
         \<and> mdr_localDocumentId (os' a) = mdr_localDocumentId (os b)
         \<and> canUseInExternal (os' a) \<and> h' = freed h (os a)"
proof -
  from res us mg have su: "setUnmanaged hp a (mdr_vpack (os b)) b (h, os) = (h', os')"
    by (simp add: move_assign_def)
  from ok have c: "setUnmanaged_contract hp"
    by (simp add: helpers_ok_def)
  from ne have ne': "b \<noteq> a" by simp
  show ?thesis
    using setUnmanagedD [OF c su] ne' by (simp add: canUseInExternal_def)
qed

text \<open>
  A managed object moved into itself: \<^verbatim>\<open>reset()\<close> frees the buffer and clears the object before
  the members of \<^verbatim>\<open>other\<close>, the same object, are read.
\<close>

lemma move_assign_self_managed:
  assumes ok: "helpers_ok hp"
    and us: "\<not> mdr_useString (os a)" and mg: "mdr_managed (os a)"
    and res: "move_assign hp a a (h, os) = (h', os')"
  shows "empty (os' a) \<and> h' = freed h (os a)"
proof -
  obtain h1 o1 where ra: "reset hp a (h, os) = (h1, o1)"
    by (cases "reset hp a (h, os)")
  from ok have c: "reset_contract hp"
    by (simp add: helpers_ok_def)
  let ?a6 = "(o1 a)\<lparr>mdr_vpack := mdr_vpack (o1 a), mdr_length := mdr_length (o1 a),
                mdr_localDocumentId := mdr_localDocumentId (o1 a), mdr_managed := False\<rparr>"
  from res us mg ra have rb: "reset hp a (h1, o1(a := ?a6)) = (h', os')"
    by (simp add: move_assign_def assign_def Let_def)
  have "h' = h1"
    using resetD(1) [OF c rb] by (simp add: freed_def)
  then show ?thesis
    using resetD(1) [OF c ra] resetD(3) [OF c rb] by (simp add: empty_def)
qed

text \<open>
  Claim C9, as amended. Let \<open>a\<close> and \<open>b\<close> be two distinct objects and let
  \<^verbatim>\<open>a = std::move(b)\<close> run, with member functions that meet their contracts, \<open>b\<close> holding its
  document in one of the three ways, and \<open>a\<close> not owning the buffer \<open>b\<close> points at. If \<open>b\<close>
  was string-backed or managed, then \<open>a\<close> holds \<open>b\<close>'s former document (the same bytes behind
  \<^verbatim>\<open>vpack()\<close>, the same \<^verbatim>\<open>_length\<close> and \<^verbatim>\<open>_localDocumentId\<close>) and owns it, and \<open>b\<close> is left
  empty, neither managed nor string-backed. If \<open>b\<close> was unmanaged, \<open>a\<close> receives \<open>b\<close>'s pointer
  and id through \<^verbatim>\<open>setUnmanaged\<close>, \<open>b\<close> is unchanged, and both objects point at the same
  document, which is still there.
\<close>

theorem move_assign_distinct_transfers_document:
  assumes ok: "helpers_ok hp"
    and ne: "a \<noteq> b"
    and cb: "consistent (os b)"
    and own: "\<not> owns_target (os a) (os b)"
    and res: "move_assign hp a b (h, os) = (h', os')"
  shows "(mdr_useString (os b) \<or> mdr_managed (os b) \<longrightarrow>
            (\<not> empty (os b) \<longrightarrow> vpack_bytes h' (os' a) = vpack_bytes h (os b))
            \<and> mdr_length (os' a) = mdr_length (os b)
            \<and> mdr_localDocumentId (os' a) = mdr_localDocumentId (os b)
            \<and> (mdr_useString (os' a) \<or> mdr_managed (os' a))
            \<and> empty (os' b) \<and> \<not> mdr_managed (os' b) \<and> \<not> mdr_useString (os' b))
       \<and> (\<not> mdr_useString (os b) \<and> \<not> mdr_managed (os b) \<longrightarrow>
            os' b = os b \<and> mdr_vpack (os' a) = mdr_vpack (os b)
            \<and> mdr_localDocumentId (os' a) = mdr_localDocumentId (os b)
            \<and> canUseInExternal (os' a)
            \<and> vpack_bytes h' (os' a) = vpack_bytes h (os b)
            \<and> vpack_bytes h' (os' b) = vpack_bytes h (os b))"
proof (cases "mdr_useString (os b)")
  case True
  note s = move_assign_string [OF ok ne True res]
  from cb True have l: "mdr_length (os b) = 0" and np: "\<not> is_heap_ptr (mdr_vpack (os b))"
    by (simp_all add: consistent_def)
  from np have "\<not> empty (os b) \<longrightarrow> vpack_bytes h (os b) = Some (mdr_string (os b))"
    by (cases "mdr_vpack (os b)") (simp_all add: empty_def vpack_bytes_def is_heap_ptr_def)
  moreover have "vpack_bytes h' (os' a) = Some (mdr_string (os b))"
    using s by (simp add: vpack_bytes_def)
  ultimately show ?thesis using s True l by simp
next
  case False
  have keep: "freed h (os a) p = h p" if "mdr_vpack (os b) = HeapPtr p" for p
    using own that by (intro freed_other) (auto simp: owns_target_def is_heap_ptr_def)
  show ?thesis
  proof (cases "mdr_managed (os b)")
    case True
    note m = move_assign_managed [OF ok ne False True res]
    from cb False True obtain p where p: "mdr_vpack (os b) = HeapPtr p"
      by (cases "mdr_vpack (os b)") (simp_all add: consistent_def is_heap_ptr_def)
    with m keep [OF p] have "vpack_bytes h' (os' a) = vpack_bytes h (os b)"
      by (simp add: vpack_bytes_def)
    with m False True show ?thesis by simp
  next
    case nm: False
    note u = move_assign_unmanaged [OF ok ne False nm res]
    from cb False have ns: "mdr_vpack (os b) \<noteq> StringData"
      by (simp add: consistent_def)
    have "vpack_bytes h' (os' a) = vpack_bytes h (os b) \<and> vpack_bytes h' (os' b) = vpack_bytes h (os b)"
    proof (cases "mdr_vpack (os b)")
      case Nullptr
      with u show ?thesis by (simp add: vpack_bytes_def)
    next
      case (HeapPtr p)
      with u keep [OF HeapPtr] show ?thesis by (simp add: vpack_bytes_def)
    next
      case StringData
      with ns show ?thesis by simp
    qed
    with u False nm show ?thesis by simp
  qed
qed

text \<open>The move assignment touches no third object.\<close>

lemma move_assign_frame:
  assumes ok: "helpers_ok hp" and ne: "a \<noteq> b" and j: "j \<noteq> a" "j \<noteq> b"
    and res: "move_assign hp a b (h, os) = (h', os')"
  shows "os' j = os j"
proof -
  from ok have c: "reset_contract hp" "setUnmanaged_contract hp" "setManaged_string_contract hp"
    by (simp_all add: helpers_ok_def)
  from ne have ne': "b \<noteq> a" by simp
  consider "mdr_useString (os b)" | "\<not> mdr_useString (os b)" "mdr_managed (os b)"
    | "\<not> mdr_useString (os b)" "\<not> mdr_managed (os b)" by blast
  then show ?thesis
  proof cases
    case 1
    obtain h1 o1 where sm: "setManaged_string hp a b (h, os) = (h1, o1)"
      by (cases "setManaged_string hp a b (h, os)")
    from res 1 sm have rs: "reset hp b (h1, o1(b := (o1 b)\<lparr>mdr_managed := False\<rparr>)) = (h', os')"
      by (simp add: move_assign_def assign_def)
    from resetD(2) [OF c(1) rs, of j] setManaged_stringD(1) [OF c(3) sm ne', of j] j
    show ?thesis by simp
  next
    case 2
    obtain h1 o1 where ra: "reset hp a (h, os) = (h1, o1)"
      by (cases "reset hp a (h, os)")
    obtain s6 where s6: "move_assign hp a b (h, os) = reset hp b s6" "snd s6 j = o1 j"
      using 2 ra j by (simp add: move_assign_def assign_def Let_def)
    obtain h6 o6 where p: "s6 = (h6, o6)" by (cases s6)
    from res s6 p have rb: "reset hp b (h6, o6) = (h', os')" by simp
    from resetD(2) [OF c(1) rb, of j] resetD(2) [OF c(1) ra, of j] s6(2) p j
    show ?thesis by simp
  next
    case 3
    from res 3 have su: "setUnmanaged hp a (mdr_vpack (os b)) b (h, os) = (h', os')"
      by (simp add: move_assign_def)
    from setUnmanagedD(2) [OF c(2) su, of j] j show ?thesis by simp
  qed
qed

text \<open>
  Where no two objects own the same buffer, \<open>a\<close> does not own the buffer a managed \<open>b\<close> points
  at, and the move assignment between distinct objects keeps it so.
\<close>

lemma exclusive_not_owns_target:
  "exclusive os \<Longrightarrow> a \<noteq> b \<Longrightarrow> mdr_managed (os b) \<Longrightarrow> \<not> owns_target (os a) (os b)"
  by (auto simp: exclusive_def owns_target_def)

lemma move_assign_exclusive:
  assumes ok: "helpers_ok hp" and ne: "a \<noteq> b" and ex: "exclusive os"
    and res: "move_assign hp a b (h, os) = (h', os')"
  shows "exclusive os'"
proof -
  note fr = move_assign_frame [OF ok ne _ _ res]
  have nb: "\<not> mdr_managed (os' b) \<or> os' b = os b"
    using move_assign_string [OF ok ne _ res] move_assign_managed [OF ok ne _ _ res]
      move_assign_unmanaged [OF ok ne _ _ res] by blast
  have a': "\<not> mdr_managed (os' a) \<or>
      (mdr_managed (os b) \<and> \<not> mdr_managed (os' b) \<and> mdr_vpack (os' a) = mdr_vpack (os b))"
    using move_assign_string [OF ok ne _ res] move_assign_managed [OF ok ne _ _ res]
      move_assign_unmanaged [OF ok ne _ _ res] unfolding canUseInExternal_def by blast
  show ?thesis
    unfolding exclusive_def
  proof (intro allI impI, elim conjE)
    fix i j
    assume ij: "i \<noteq> j" and mi: "mdr_managed (os' i)" and mj: "mdr_managed (os' j)"
    have key: "mdr_vpack (os' x) \<noteq> mdr_vpack (os' y)"
      if xy: "x \<noteq> y" and mx: "mdr_managed (os' x)" and my: "mdr_managed (os' y)"
        and ya: "y \<noteq> a" for x y
    proof -
      have yo: "os' y = os y" using ya my nb fr [of y] by (cases "y = b") auto
      show ?thesis
      proof (cases "x = a")
        case True
        with mx a' have t: "mdr_managed (os b)" "\<not> mdr_managed (os' b)" "mdr_vpack (os' a) = mdr_vpack (os b)"
          by auto
        with my have "y \<noteq> b" by auto
        with ex t(1) my yo have "mdr_vpack (os b) \<noteq> mdr_vpack (os y)"
          unfolding exclusive_def by metis
        with True t yo show ?thesis by simp
      next
        case False
        have xo: "os' x = os x" using False mx nb fr [of x] by (cases "x = b") auto
        with yo ex xy mx my show ?thesis unfolding exclusive_def by metis
      qed
    qed
    show "mdr_vpack (os' i) \<noteq> mdr_vpack (os' j)"
    proof (cases "j = a")
      case True
      with ij have "i \<noteq> a" by simp
      from key [OF ij [symmetric] mj mi this] show ?thesis by simp
    next
      case False
      from key [OF ij mi mj False] show ?thesis .
    qed
  qed
qed

text \<open>The sample member functions meet the contracts.\<close>

lemma sample_reset_ok: "reset_contract sample_helpers"
  by (simp add: reset_contract_def sample_helpers_def sample_reset_def)

lemma sample_setUnmanaged_ok: "setUnmanaged_contract sample_helpers"
  by (simp add: setUnmanaged_contract_def sample_helpers_def sample_setUnmanaged_def
      sample_reset_def assign_def Let_def freed_def)

lemma sample_setManaged_string_ok: "setManaged_string_contract sample_helpers"
  by (simp add: setManaged_string_contract_def sample_helpers_def sample_setManaged_string_def
      sample_reset_def assign_def Let_def)

lemma sample_helpers_ok: "helpers_ok sample_helpers"
  by (simp add: helpers_ok_def sample_reset_ok sample_setUnmanaged_ok sample_setManaged_string_ok)

lemmas sample_defs = move_assign_def sample_helpers_def sample_reset_def sample_setUnmanaged_def
  sample_setManaged_string_def assign_def Let_def freed_def default_result_def managed_doc_def
  string_doc_def unmanaged_doc_def sample_heap_def two_objects_def vpack_bytes_def empty_def


text \<open>
  When \<open>a\<close> owns the buffer an unmanaged \<open>b\<close> points at, \<^verbatim>\<open>setUnmanaged\<close> gives the buffer up:
  afterwards both objects hold the same pointer and there is no document behind it.
\<close>

lemma move_assign_alias_of_owner:
  assumes ok: "helpers_ok hp" and ne: "a \<noteq> b"
    and us: "\<not> mdr_useString (os b)" and mg: "\<not> mdr_managed (os b)"
    and own: "mdr_managed (os a)" "mdr_vpack (os a) = HeapPtr p" "mdr_vpack (os b) = HeapPtr p"
    and res: "move_assign hp a b (h, os) = (h', os')"
  shows "mdr_vpack (os' a) = HeapPtr p \<and> mdr_vpack (os' b) = HeapPtr p
         \<and> vpack_bytes h' (os' a) = None \<and> vpack_bytes h' (os' b) = None"
  using move_assign_unmanaged [OF ok ne us mg res] own
  by (simp add: vpack_bytes_def freed_own)

text \<open>
  The move assignment and \<^verbatim>\<open>prepareStringUsage\<close> keep the three ways of holding a document
  apart, so the hypothesis \<open>consistent\<close> of the claim holds of every object they produce.
\<close>

lemma move_assign_consistent:
  assumes ok: "helpers_ok hp" and ne: "a \<noteq> b" and cb: "consistent (os b)"
    and res: "move_assign hp a b (h, os) = (h', os')"
  shows "consistent (os' a) \<and> consistent (os' b)"
proof (cases "mdr_useString (os b)")
  case True
  from move_assign_string [OF ok ne True res] show ?thesis
    by (simp add: consistent_def is_heap_ptr_def empty_def)
next
  case False
  show ?thesis
  proof (cases "mdr_managed (os b)")
    case True
    from move_assign_managed [OF ok ne False True res] cb False True show ?thesis
      by (simp add: consistent_def is_heap_ptr_def empty_def)
  next
    case nm: False
    from move_assign_unmanaged [OF ok ne False nm res] cb False nm show ?thesis
      by (simp add: consistent_def canUseInExternal_def)
  qed
qed

lemma prepareStringUsage_consistent:
  assumes ok: "helpers_ok hp" and res: "prepareStringUsage hp i (h, os) = (h', os')"
  shows "consistent (os' i) \<and> mdr_useString (os' i) \<and> empty (os' i)"
proof -
  obtain h1 o1 where r: "reset hp i (h, os) = (h1, o1)"
    by (cases "reset hp i (h, os)")
  with res have eq: "os' i = (o1 i)\<lparr>mdr_useString := True\<rparr>"
    by (auto simp: prepareStringUsage_def assign_def)
  from ok have c: "reset_contract hp" by (simp add: helpers_ok_def)
  from resetD [OF c r] eq show ?thesis
    by (simp add: consistent_def is_heap_ptr_def empty_def)
qed

text \<open>
  Claim C9, stated for every pair of objects, fails in two ways. A managed object
  with the document \<open>0A 0B 0C\<close> moved into itself ends empty, its buffer freed. And when
  object 0 owns that buffer and the unmanaged object 1 points at it, \<^verbatim>\<open>a = std::move(b)\<close>
  leaves \<open>b\<close> unchanged and gives \<open>a\<close> the pointer of \<open>b\<close>, but the document behind the
  pointer is gone for both.
\<close>

theorem move_assign_self_and_alias_counterexample:
  "mdr_managed (two_objects managed_doc default_result 0)
   \<and> vpack_bytes sample_heap (two_objects managed_doc default_result 0) = Some [0x0A, 0x0B, 0x0C]
   \<and> empty (snd (move_assign sample_helpers 0 0 (sample_heap, two_objects managed_doc default_result)) 0)
   \<and> fst (move_assign sample_helpers 0 0 (sample_heap, two_objects managed_doc default_result)) 1 = None
   \<and> canUseInExternal (two_objects managed_doc unmanaged_doc 1)
   \<and> vpack_bytes sample_heap (two_objects managed_doc unmanaged_doc 1) = Some [0x0A, 0x0B, 0x0C]
   \<and> mdr_vpack (snd (move_assign sample_helpers 0 1 (sample_heap, two_objects managed_doc unmanaged_doc)) 0)
       = mdr_vpack (two_objects managed_doc unmanaged_doc 1)
   \<and> snd (move_assign sample_helpers 0 1 (sample_heap, two_objects managed_doc unmanaged_doc)) 1
       = two_objects managed_doc unmanaged_doc 1
   \<and> vpack_bytes (fst (move_assign sample_helpers 0 1 (sample_heap, two_objects managed_doc unmanaged_doc)))
        (snd (move_assign sample_helpers 0 1 (sample_heap, two_objects managed_doc unmanaged_doc)) 0) = None
   \<and> vpack_bytes (fst (move_assign sample_helpers 0 1 (sample_heap, two_objects managed_doc unmanaged_doc)))
        (snd (move_assign sample_helpers 0 1 (sample_heap, two_objects managed_doc unmanaged_doc)) 1) = None"
  by (simp add: sample_defs canUseInExternal_def)

text \<open>
  A managed, a string-backed and an unmanaged source in object 1, each moved into the
  default-constructed object 0 with the sample member functions.
\<close>

theorem move_assign_distinct_transfers_document_witness:
  "helpers_ok sample_helpers \<and> (0 :: oid) \<noteq> 1
   \<and> consistent managed_doc \<and> consistent string_doc \<and> consistent unmanaged_doc
   \<and> \<not> owns_target default_result managed_doc \<and> \<not> owns_target default_result unmanaged_doc
   \<and> \<not> owns_target default_result string_doc
   \<and> vpack_bytes (fst (move_assign sample_helpers 0 1 (sample_heap, two_objects default_result managed_doc)))
        (snd (move_assign sample_helpers 0 1 (sample_heap, two_objects default_result managed_doc)) 0)
       = Some [0x0A, 0x0B, 0x0C]
   \<and> snd (move_assign sample_helpers 0 1 (sample_heap, two_objects default_result managed_doc)) 0 = managed_doc
   \<and> snd (move_assign sample_helpers 0 1 (sample_heap, two_objects default_result managed_doc)) 1 = default_result
   \<and> snd (move_assign sample_helpers 0 1 (Map.empty, two_objects default_result string_doc)) 0 = string_doc
   \<and> snd (move_assign sample_helpers 0 1 (Map.empty, two_objects default_result string_doc)) 1 = default_result
   \<and> snd (move_assign sample_helpers 0 1 (sample_heap, two_objects default_result unmanaged_doc)) 0 = unmanaged_doc
   \<and> snd (move_assign sample_helpers 0 1 (sample_heap, two_objects default_result unmanaged_doc)) 1 = unmanaged_doc
   \<and> vpack_bytes (fst (move_assign sample_helpers 0 1 (sample_heap, two_objects default_result unmanaged_doc)))
        (snd (move_assign sample_helpers 0 1 (sample_heap, two_objects default_result unmanaged_doc)) 0)
       = Some [0x0A, 0x0B, 0x0C]"
proof -
  have ok: "helpers_ok sample_helpers" by (rule sample_helpers_ok)
  have ne: "(0 :: oid) \<noteq> 1" by simp
  have c: "consistent managed_doc" "consistent string_doc" "consistent unmanaged_doc"
    by (simp_all add: consistent_def is_heap_ptr_def managed_doc_def string_doc_def
        unmanaged_doc_def default_result_def)
  have o: "\<not> owns_target default_result x" for x :: "(64 word) ManagedDocumentResult"
    by (simp add: owns_target_def default_result_def)
  have t: "two_objects x y 0 = x" "two_objects x y 1 = y" "two_objects x y (Suc 0) = y" for x y
    by (simp_all add: two_objects_def)
  let ?sm = "(sample_heap, two_objects default_result managed_doc)"
  let ?ss = "(Map.empty, two_objects default_result string_doc) :: (64 word) state"
  let ?su = "(sample_heap, two_objects default_result unmanaged_doc)"
  have m: "vpack_bytes (fst (move_assign sample_helpers 0 1 ?sm)) (snd (move_assign sample_helpers 0 1 ?sm) 0)
      = vpack_bytes sample_heap managed_doc"
    using move_assign_distinct_transfers_document
      [OF ok ne, of "two_objects default_result managed_doc" sample_heap
         "fst (move_assign sample_helpers 0 1 ?sm)" "snd (move_assign sample_helpers 0 1 ?sm)"]
      c o
    by (simp add: t managed_doc_def default_result_def empty_def)
  have u: "vpack_bytes (fst (move_assign sample_helpers 0 1 ?su)) (snd (move_assign sample_helpers 0 1 ?su) 0)
      = vpack_bytes sample_heap unmanaged_doc"
    using move_assign_distinct_transfers_document
      [OF ok ne, of "two_objects default_result unmanaged_doc" sample_heap
         "fst (move_assign sample_helpers 0 1 ?su)" "snd (move_assign sample_helpers 0 1 ?su)"]
      c o
    by (simp add: t unmanaged_doc_def default_result_def)
  have v: "vpack_bytes sample_heap managed_doc = Some [0x0A, 0x0B, 0x0C]"
    "vpack_bytes sample_heap unmanaged_doc = Some [0x0A, 0x0B, 0x0C]"
    by (simp_all add: vpack_bytes_def sample_heap_def managed_doc_def unmanaged_doc_def default_result_def)
  have r: "snd (move_assign sample_helpers 0 1 ?sm) 0 = managed_doc"
    "snd (move_assign sample_helpers 0 1 ?sm) 1 = default_result"
    "snd (move_assign sample_helpers 0 1 ?ss) 0 = string_doc"
    "snd (move_assign sample_helpers 0 1 ?ss) 1 = default_result"
    "snd (move_assign sample_helpers 0 1 ?su) 0 = unmanaged_doc"
    "snd (move_assign sample_helpers 0 1 ?su) 1 = unmanaged_doc"
    by (simp_all add: sample_defs)
  from ok ne c o m u v r show ?thesis by simp
qed

section \<open>Properties of the tick comparison\<close>

declare compareTicksLoop.simps [simp del]

lemma compareTicksLoop_drop:
  "length l = length r \<Longrightarrow> compareTicksLoop l r i = cmpUnits (drop i l) (drop i r)"
proof (induction l r i rule: compareTicksLoop.induct)
  case (1 l r i)
  show ?case
  proof (cases "i < length l")
    case True
    with "1.prems" have ir: "i < length r" by simp
    have dl: "drop i l = l ! i # drop (Suc i) l" using True by (simp add: Cons_nth_drop_Suc)
    have dr: "drop i r = r ! i # drop (Suc i) r" using ir by (simp add: Cons_nth_drop_Suc)
    show ?thesis
    proof (cases "l ! i = r ! i")
      case True
      with "1.IH" \<open>i < length l\<close> "1.prems" show ?thesis
        by (subst compareTicksLoop.simps) (simp add: dl dr)
    next
      case False
      with \<open>i < length l\<close> show ?thesis
        by (subst compareTicksLoop.simps) (simp add: dl dr)
    qed
  next
    case False
    with "1.prems" show ?thesis
      by (subst compareTicksLoop.simps) simp
  qed
qed

lemma cmpUnits_range: "cmpUnits xs ys \<in> {- 1, 0, 1}"
  by (induction xs ys rule: cmpUnits.induct) auto

lemma cmpUnits_zero: "length xs = length ys \<Longrightarrow> cmpUnits xs ys = 0 \<longleftrightarrow> xs = ys"
  by (induction xs ys rule: list_induct2) auto

lemma cmpUnits_anti: "length xs = length ys \<Longrightarrow> cmpUnits xs ys = - cmpUnits ys xs"
  by (induction xs ys rule: list_induct2) auto

lemma cmpUnits_first_diff:
  "length xs = length ys \<Longrightarrow> i < length xs \<Longrightarrow> \<forall>j<i. xs ! j = ys ! j \<Longrightarrow> xs ! i \<noteq> ys ! i
   \<Longrightarrow> cmpUnits xs ys = (if xs ! i < ys ! i then - 1 else 1)"
proof (induction xs ys arbitrary: i rule: list_induct2)
  case Nil
  then show ?case by simp
next
  case (Cons x xs y ys)
  show ?case
  proof (cases i)
    case 0
    with Cons.prems show ?thesis by simp
  next
    case (Suc k)
    with Cons.prems have "x = y" by auto
    moreover have "cmpUnits xs ys = (if xs ! k < ys ! k then - 1 else 1)"
      using Cons.prems Suc by (intro Cons.IH) auto
    ultimately show ?thesis using Suc by simp
  qed
qed

lemma cmpUnits_trans:
  "length xs = length ys \<Longrightarrow> length ys = length zs \<Longrightarrow>
   cmpUnits xs ys \<le> 0 \<Longrightarrow> cmpUnits ys zs \<le> 0 \<Longrightarrow> cmpUnits xs zs \<le> 0"
  by (induction xs ys zs rule: list_induct3) (auto split: if_splits)

lemma compareTicks_alt:
  "compareTicks l r =
     (if length (normalizeTick l) < length (normalizeTick r) then - 1
      else if length (normalizeTick r) < length (normalizeTick l) then 1
      else cmpUnits (normalizeTick l) (normalizeTick r))"
  by (auto simp: compareTicks_def Let_def compareTicksLoop_drop)

text \<open>
  Claim C10. \<^verbatim>\<open>compareTicks\<close> is a total-order comparator on tick strings. After a
  \<^verbatim>\<open>null\<close> argument is replaced by the string "0": the result is one of \<open>-1\<close>, \<open>0\<close>, \<open>1\<close>;
  it is \<open>0\<close> exactly when the two strings are equal; a shorter string comes strictly
  before a longer one; strings of equal length are ordered by their first differing
  code unit; swapping the arguments negates the result; and the induced relation
  \<open>compareTicks l r \<le> 0\<close> is transitive.
\<close>

theorem compareTicks_total_order:
  "compareTicks l r \<in> {- 1, 0, 1}
   \<and> (compareTicks l r = 0 \<longleftrightarrow> normalizeTick l = normalizeTick r)
   \<and> (length (normalizeTick l) < length (normalizeTick r) \<longrightarrow> compareTicks l r = - 1)
   \<and> (length (normalizeTick r) < length (normalizeTick l) \<longrightarrow> compareTicks l r = 1)
   \<and> (length (normalizeTick l) = length (normalizeTick r) \<longrightarrow>
        (\<forall>i < length (normalizeTick l).
           (\<forall>j<i. normalizeTick l ! j = normalizeTick r ! j) \<and> normalizeTick l ! i \<noteq> normalizeTick r ! i \<longrightarrow>
           compareTicks l r = (if normalizeTick l ! i < normalizeTick r ! i then - 1 else 1)))
   \<and> compareTicks l r = - compareTicks r l
   \<and> (compareTicks l r \<le> 0 \<and> compareTicks r t \<le> 0 \<longrightarrow> compareTicks l t \<le> 0)"
proof -
  let ?l = "normalizeTick l" and ?r = "normalizeTick r" and ?t = "normalizeTick t"
  have 1: "compareTicks l r \<in> {- 1, 0, 1}"
    using cmpUnits_range [of ?l ?r] by (simp add: compareTicks_alt)
  have 2: "compareTicks l r = 0 \<longleftrightarrow> ?l = ?r"
    using cmpUnits_zero [of ?l ?r] by (auto simp: compareTicks_alt)
  have 3: "length ?l < length ?r \<longrightarrow> compareTicks l r = - 1"
    by (simp add: compareTicks_alt)
  have 4: "length ?r < length ?l \<longrightarrow> compareTicks l r = 1"
    by (simp add: compareTicks_alt)
  have 5: "length ?l = length ?r \<longrightarrow>
        (\<forall>i < length ?l. (\<forall>j<i. ?l ! j = ?r ! j) \<and> ?l ! i \<noteq> ?r ! i \<longrightarrow>
           compareTicks l r = (if ?l ! i < ?r ! i then - 1 else 1))"
    using cmpUnits_first_diff [of ?l ?r] by (simp add: compareTicks_alt)
  have 6: "compareTicks l r = - compareTicks r l"
    using cmpUnits_anti [of ?l ?r] by (auto simp: compareTicks_alt)
  have 7: "compareTicks l r \<le> 0 \<and> compareTicks r t \<le> 0 \<longrightarrow> compareTicks l t \<le> 0"
    using cmpUnits_trans [of ?l ?r ?t] by (auto simp: compareTicks_alt split: if_splits)
  from 1 2 3 4 5 6 7 show ?thesis by blast
qed

text \<open>
  The ticks "12", "13" and "123", and \<^verbatim>\<open>null\<close>: the equal-length case with the first
  difference at index 1, the length rule, and the \<^verbatim>\<open>null\<close> guard.
\<close>

theorem compareTicks_total_order_witness:
  "length (normalizeTick (Some [0x31, 0x32])) = length (normalizeTick (Some [0x31, 0x33]))
   \<and> normalizeTick (Some [0x31, 0x32]) ! 0 = normalizeTick (Some [0x31, 0x33]) ! 0
   \<and> normalizeTick (Some [0x31, 0x32]) ! 1 < normalizeTick (Some [0x31, 0x33]) ! 1
   \<and> compareTicks (Some [0x31, 0x32]) (Some [0x31, 0x33]) = - 1
   \<and> compareTicks (Some [0x31, 0x33]) (Some [0x31, 0x32]) = 1
   \<and> length (normalizeTick None) < length (normalizeTick (Some [0x31, 0x32]))
   \<and> compareTicks None (Some [0x31, 0x32]) = - 1
   \<and> compareTicks (Some [0x31, 0x33]) (Some [0x31, 0x32, 0x33]) \<le> 0
   \<and> compareTicks (Some [0x31, 0x32]) (Some [0x31, 0x32, 0x33]) \<le> 0
   \<and> compareTicks None (Some [0x30]) = 0"
  using compareTicks_total_order [of "Some [0x31, 0x32]" "Some [0x31, 0x33]" "Some [0x31, 0x32, 0x33]"]
    compareTicks_total_order [of None "Some [0x31, 0x32]" "Some [0x30]"]
    compareTicks_total_order [of None "Some [0x30]" None]
  by (simp add: normalizeTick_def compareTicks_alt)

section \<open>Properties of the InternalKey order\<close>

lemma value_type_rank_inj: "value_type_rank s = value_type_rank t \<Longrightarrow> s = t"
  by (cases s; cases t) simp_all

lemma internal_key_less_irrefl: "\<not> internal_key_less a a"
  by (simp add: internal_key_less_def)

lemma internal_key_less_trans:
  "internal_key_less a b \<Longrightarrow> internal_key_less b c \<Longrightarrow> internal_key_less a c"
  unfolding internal_key_less_def by (elim disjE conjE) (auto intro: less_trans)

lemma internal_key_less_total:
  fixes a b :: InternalKey
  shows "a = b \<or> internal_key_less a b \<or> internal_key_less b a"
proof (cases "user_key a = user_key b \<and> sequence_number a = sequence_number b
    \<and> value_type_rank (value_type a) = value_type_rank (value_type b)")
  case True
  then have "a = b" by (auto dest: value_type_rank_inj)
  then show ?thesis by simp
next
  case False
  then consider "user_key a \<noteq> user_key b"
    | "user_key a = user_key b" "sequence_number a \<noteq> sequence_number b"
    | "user_key a = user_key b" "sequence_number a = sequence_number b"
      "value_type_rank (value_type a) \<noteq> value_type_rank (value_type b)"
    by blast
  then show ?thesis
  proof cases
    case 1
    then have "user_key a < user_key b \<or> user_key b < user_key a" by (rule linorder_neqE) simp_all
    then show ?thesis by (auto simp: internal_key_less_def)
  next
    case 2
    then show ?thesis by (auto simp: internal_key_less_def)
  next
    case 3
    then show ?thesis by (auto simp: internal_key_less_def)
  qed
qed

lemma sorted_run_newest_first:
  assumes "sorted_run es" "i < j" "j < length es" "user_key (fst (es ! i)) = user_key (fst (es ! j))"
  shows "sequence_number (fst (es ! j)) \<le> sequence_number (fst (es ! i))"
proof -
  from assms have "\<not> internal_key_less (fst (es ! j)) (fst (es ! i))"
    by (simp add: sorted_run_def sorted_wrt_iff_nth_less)
  with assms(4) show ?thesis
    by (auto simp: internal_key_less_def not_less)
qed

lemma find_first_index:
  "find P xs = Some x \<Longrightarrow> \<exists>i<length xs. xs ! i = x \<and> P x \<and> (\<forall>j<i. \<not> P (xs ! j))"
  by (auto simp: find_Some_iff)

lemma first_for_key_newest:
  assumes s: "sorted_run es" and f: "first_for_key k es = Some e" and m: "e' \<in> set es"
    and k: "user_key (fst e') = k"
  shows "sequence_number (fst e') \<le> sequence_number (fst e)"
proof -
  from f obtain i where i: "i < length es" "es ! i = e" "user_key (fst e) = k"
    "\<forall>j<i. user_key (fst (es ! j)) \<noteq> k"
    unfolding first_for_key_def by (auto simp: find_Some_iff)
  from m obtain j where j: "j < length es" "es ! j = e'" by (auto simp: in_set_conv_nth)
  with i(4) k have "\<not> j < i" by auto
  then consider "j = i" | "i < j" by linarith
  then show ?thesis
  proof cases
    case 1
    with i j show ?thesis by simp
  next
    case 2
    from sorted_run_newest_first [OF s 2 j(1)] i j k show ?thesis by simp
  qed
qed

text \<open>
  Claim C5. The order on InternalKeys is a total order (irreflexive, transitive, and any two
  distinct keys are comparable), lexicographic by ascending user key, then descending
  sequence number, then value type. Consequently, in a forward scan of a sorted run, of
  two entries with the same user key the earlier one has the greater or equal sequence
  number, and the first entry of a user key carries the greatest sequence number of that
  key.
\<close>

theorem internal_key_order_total_newest_first:
  fixes a b c :: InternalKey
  shows "\<not> internal_key_less a a
    \<and> (internal_key_less a b \<and> internal_key_less b c \<longrightarrow> internal_key_less a c)
    \<and> (a = b \<or> internal_key_less a b \<or> internal_key_less b a)
    \<and> (user_key a < user_key b \<longrightarrow> internal_key_less a b)
    \<and> (user_key a = user_key b \<and> sequence_number b < sequence_number a \<longrightarrow> internal_key_less a b)
    \<and> (user_key a = user_key b \<and> sequence_number a = sequence_number b \<longrightarrow>
          (internal_key_less a b \<longleftrightarrow> value_type_rank (value_type a) < value_type_rank (value_type b)))
    \<and> (sorted_run es \<longrightarrow>
          (\<forall>i j. i < j \<and> j < length es \<and> user_key (fst (es ! i)) = user_key (fst (es ! j)) \<longrightarrow>
             sequence_number (fst (es ! j)) \<le> sequence_number (fst (es ! i)))
          \<and> (\<forall>k e. first_for_key k es = Some e \<longrightarrow>
               (\<forall>e' \<in> set es. user_key (fst e') = k \<longrightarrow>
                  sequence_number (fst e') \<le> sequence_number (fst e))))"
proof -
  have 1: "\<not> internal_key_less a a"
    by (rule internal_key_less_irrefl)
  have 2: "internal_key_less a b \<and> internal_key_less b c \<longrightarrow> internal_key_less a c"
    using internal_key_less_trans by blast
  have 3: "a = b \<or> internal_key_less a b \<or> internal_key_less b a"
    by (rule internal_key_less_total)
  have 4: "user_key a < user_key b \<longrightarrow> internal_key_less a b"
    by (simp add: internal_key_less_def)
  have 5: "user_key a = user_key b \<and> sequence_number b < sequence_number a \<longrightarrow> internal_key_less a b"
    by (simp add: internal_key_less_def)
  have 6: "user_key a = user_key b \<and> sequence_number a = sequence_number b \<longrightarrow>
          (internal_key_less a b \<longleftrightarrow> value_type_rank (value_type a) < value_type_rank (value_type b))"
    by (simp add: internal_key_less_def)
  have 7: "sorted_run es \<longrightarrow>
          (\<forall>i j. i < j \<and> j < length es \<and> user_key (fst (es ! i)) = user_key (fst (es ! j)) \<longrightarrow>
             sequence_number (fst (es ! j)) \<le> sequence_number (fst (es ! i)))"
    using sorted_run_newest_first by blast
  have 8: "sorted_run es \<longrightarrow> (\<forall>k e. first_for_key k es = Some e \<longrightarrow>
               (\<forall>e' \<in> set es. user_key (fst e') = k \<longrightarrow>
                  sequence_number (fst e') \<le> sequence_number (fst e)))"
    using first_for_key_newest by blast
  from 1 2 3 4 5 6 7 8 show ?thesis by blast
qed

text \<open>A run with two versions of each of two keys, and three keys that differ in one component each.\<close>

theorem internal_key_order_total_newest_first_witness:
  "internal_key_less (ikey [1] 3 Put) (ikey [1] 1 Put)
   \<and> internal_key_less (ikey [1] 1 Put) (ikey [2] 4 Delete)
   \<and> internal_key_less (ikey [1] 3 Put) (ikey [2] 4 Delete)
   \<and> [1] < ([2] :: bytes)
   \<and> sorted_run [(ikey [1] 3 Put, [11]), (ikey [1] 1 Put, [10]), (ikey [2] 4 Delete, []), (ikey [2] 2 Put, [20])]
   \<and> first_for_key [2] [(ikey [1] 3 Put, [11]), (ikey [1] 1 Put, [10]), (ikey [2] 4 Delete, []), (ikey [2] 2 Put, [20])]
       = Some (ikey [2] 4 Delete, [])
   \<and> (ikey [2] 2 Put, [20]) \<in> set [(ikey [1] 3 Put, [11]), (ikey [1] 1 Put, [10]), (ikey [2] 4 Delete, []), (ikey [2] 2 Put, [20])]
   \<and> sequence_number (fst (ikey [2] 2 Put, [20 :: 8 word])) \<le> sequence_number (fst (ikey [2] 4 Delete, [] :: bytes))"
  using internal_key_order_total_newest_first
    [of "ikey [1] 3 Put" "ikey [1] 1 Put" "ikey [2] 4 Delete"
        "[(ikey [1] 3 Put, [11]), (ikey [1] 1 Put, [10]), (ikey [2] 4 Delete, []), (ikey [2] 2 Put, [20])]"]
  by (simp add: sorted_run_def first_for_key_def internal_key_less_def ikey_def)

end
